theory Spec2Isabelle
  imports Main
begin


section \<open>JavaScript values and strings\<close>

text \<open>
  The tracker (\<^verbatim>\<open>src/script.js\<close>, class \<^verbatim>\<open>DraftTracker\<close>) keeps its players as plain
  JavaScript objects. The values found in their fields are strings, booleans, numbers
  (identifiers of an older scheme) and \<^verbatim>\<open>undefined\<close>/\<^verbatim>\<open>null\<close>; a string is modelled as a
  \<^typ>\<open>string\<close>, one \<^typ>\<open>char\<close> standing for one code unit, and a number as an integer.
\<close>

datatype jsval = JUndefined | JNull | JBool bool | JNum int | JStr string

text \<open>Truthiness, as used by \<^verbatim>\<open>!x\<close>, \<^verbatim>\<open>x || y\<close> and \<^verbatim>\<open>if (x)\<close>.\<close>

fun truthy :: "jsval \<Rightarrow> bool" where
  "truthy JUndefined = False"
| "truthy JNull = False"
| "truthy (JBool b) = b"
| "truthy (JNum n) = (n \<noteq> 0)"
| "truthy (JStr s) = (s \<noteq> [])"

text \<open>\<^verbatim>\<open>s.includes(t)\<close>: \<^verbatim>\<open>t\<close> occurs in \<^verbatim>\<open>s\<close> as a contiguous substring.\<close>

fun includes_js :: "string \<Rightarrow> string \<Rightarrow> bool" where
  "includes_js [] t = (t = [])"
| "includes_js (c # cs) t = (take (length t) (c # cs) = t \<or> includes_js cs t)"

text \<open>The character class \<^verbatim>\<open>[a-zA-Z]\<close>.\<close>

definition is_letter :: "char \<Rightarrow> bool" where
  "is_letter c = (let n = (of_char c :: nat) in (65 \<le> n \<and> n \<le> 90) \<or> (97 \<le> n \<and> n \<le> 122))"

text \<open>\<^verbatim>\<open>s.match(/^[a-zA-Z]+$/)\<close>, read as a truth value: a match object is truthy, \<^verbatim>\<open>null\<close>
  is not. Without the \<^verbatim>\<open>m\<close> flag the anchors are the two ends of the string.\<close>

fun match_letters :: "string \<Rightarrow> bool" where
  "match_letters [] = False"
| "match_letters [c] = is_letter c"
| "match_letters (c # cs) = (is_letter c \<and> match_letters cs)"

section \<open>Identifier validity\<close>

text \<open>
  The same test is written out in \<^verbatim>\<open>loadFromSupabase\<close>, \<^verbatim>\<open>mergeSupabaseData\<close>,
  \<^verbatim>\<open>backupToSupabase\<close> and \<^verbatim>\<open>ensureAllPlayersHaveUUIDs\<close>:
  \<^verbatim>\<open>
  const isInvalidId = !id || typeof id !== 'string' || id.length < 20 ||
                      !id.includes('-') || id.match(/^[a-zA-Z]+$/);
  \<close>
\<close>

definition isInvalidId :: "jsval \<Rightarrow> bool" where
  "isInvalidId v =
     (\<not> truthy v \<or>
      (case v of
         JStr s \<Rightarrow> length s < 20 \<or> \<not> includes_js s ''-'' \<or> match_letters s
       | _ \<Rightarrow> True))"

text \<open>
  The text form that \<^verbatim>\<open>crypto.randomUUID()\<close> returns (a browser function, not part of
  the repository): 36 characters, hyphens at offsets 8, 13, 18 and 23, lower-case
  hexadecimal digits elsewhere.
\<close>

definition is_hex :: "char \<Rightarrow> bool" where
  "is_hex c = (let n = (of_char c :: nat) in (48 \<le> n \<and> n \<le> 57) \<or> (97 \<le> n \<and> n \<le> 102))"

definition canonical_uuid :: "string \<Rightarrow> bool" where
  "canonical_uuid s =
     (length s = 36 \<and> s ! 8 = CHR ''-'' \<and> s ! 13 = CHR ''-'' \<and> s ! 18 = CHR ''-'' \<and>
      s ! 23 = CHR ''-'' \<and> length (filter (\<lambda>c. c = CHR ''-'') s) = 4 \<and>
      list_all is_hex (filter (\<lambda>c. c \<noteq> CHR ''-'') s))"

section \<open>Players, remote rows and the tracker state\<close>

text \<open>
  A player is a JavaScript object: a finite map from property names to values. A property
  may be missing altogether (\<^verbatim>\<open>delete player.draftedDate\<close>), which is not the same as
  holding \<^verbatim>\<open>undefined\<close>; reading a missing property gives \<^verbatim>\<open>undefined\<close>.
\<close>

datatype field =
  K_id | K_name | K_position | K_mlbTeam | K_notes | K_headshotUrl | K_fantasyOwner
| K_drafted | K_draftNotes | K_starred | K_addedDate | K_draftedDate

type_synonym player = "field \<rightharpoonup> jsval"

definition get :: "player \<Rightarrow> field \<Rightarrow> jsval" where
  "get p k = (case p k of None \<Rightarrow> JUndefined | Some v \<Rightarrow> v)"

text \<open>
  A row of the remote \<^verbatim>\<open>players\<close> table as the backend delivers it; \<^const>\<open>None\<close> is a
  \<^verbatim>\<open>null\<close> or missing column.
\<close>

record row =
  r_id :: "string option"
  r_name :: "string option"
  r_position :: "string option"
  r_team :: "string option"
  r_notes :: "string option"
  r_owner_id :: "string option"
  r_drafted :: "bool option"
  r_draft_notes :: "string option"
  r_created_at :: "string option"

datatype error = TypeError

text \<open>\<^verbatim>\<open>x || ''\<close> and \<^verbatim>\<open>x || false\<close> on a nullable column.\<close>

definition or_empty :: "string option \<Rightarrow> string" where
  "or_empty x = (case x of None \<Rightarrow> [] | Some s \<Rightarrow> s)"

definition or_false :: "bool option \<Rightarrow> bool" where
  "or_false x = (case x of None \<Rightarrow> False | Some b \<Rightarrow> b)"

definition or_else :: "string option \<Rightarrow> string \<Rightarrow> string" where
  "or_else x d = (case x of None \<Rightarrow> d | Some s \<Rightarrow> if s = [] then d else s)"

text \<open>
  The conversion of a remote row to the local shape, written out alike in
  \<^verbatim>\<open>loadFromSupabase\<close>, \<^verbatim>\<open>handleRealtimeInsert\<close> and \<^verbatim>\<open>handleRealtimeUpdate\<close>.
  \<^verbatim>\<open>row.id.toString()\<close> raises a TypeError when the object has no \<^verbatim>\<open>id\<close>; \<^verbatim>\<open>now\<close> is the
  reading of the clock (\<^verbatim>\<open>new Date().toISOString()\<close>). The result has nine properties;
  \<^verbatim>\<open>starred\<close>, \<^verbatim>\<open>headshotUrl\<close> and \<^verbatim>\<open>draftedDate\<close> are not among them.
\<close>

definition convert :: "string \<Rightarrow> row \<Rightarrow> error + player" where
  "convert now r =
     (case r_id r of
        None \<Rightarrow> Inl TypeError
      | Some i \<Rightarrow> Inr
          [K_id \<mapsto> JStr i,
           K_name \<mapsto> JStr (or_empty (r_name r)),
           K_position \<mapsto> JStr (or_empty (r_position r)),
           K_mlbTeam \<mapsto> JStr (or_empty (r_team r)),
           K_notes \<mapsto> JStr (or_empty (r_notes r)),
           K_fantasyOwner \<mapsto> JStr (or_empty (r_owner_id r)),
           K_drafted \<mapsto> JBool (or_false (r_drafted r)),
           K_draftNotes \<mapsto> JStr (or_empty (r_draft_notes r)),
           K_addedDate \<mapsto> JStr (or_else (r_created_at r) now)])"

text \<open>\<^verbatim>\<open>data.map(convert)\<close>: the first row that raises aborts the whole map.\<close>

fun convert_all :: "string \<Rightarrow> row list \<Rightarrow> error + player list" where
  "convert_all now [] = Inr []"
| "convert_all now (r # rs) =
     (case convert now r of
        Inl e \<Rightarrow> Inl e
      | Inr p \<Rightarrow> (case convert_all now rs of Inl e \<Rightarrow> Inl e | Inr ps \<Rightarrow> Inr (p # ps)))"

text \<open>Entries of the remote \<^verbatim>\<open>player_rankings\<close> table.\<close>

record ranking =
  rk_id :: string
  rk_player_id :: string
  rk_list_type :: string
  rk_rank_index :: nat

text \<open>
  The messages of the status line (\<^verbatim>\<open>setSyncStatus(message, type)\<close>), one constructor for
  each message text of the source, and its three types.
\<close>

datatype status_type = Loading | Success | Error

datatype status_msg =
  Msg_not_configured | Msg_loading | Msg_loaded nat | Msg_no_players | Msg_error_loading
| Msg_backing_up | Msg_backed_up nat | Msg_backed_up_failed nat nat | Msg_error_backing_up
| Msg_not_available | Msg_error_initializing | Msg_initialized
| Msg_no_rankings_to_reorder | Msg_error_saving_order | Msg_order_saved
| Msg_error_clearing | Msg_cleared

text \<open>
  The fields of the \<^verbatim>\<open>DraftTracker\<close> object that the operations below read or write, and
  the entry \<^verbatim>\<open>baseballDraftTracker\<close> of the browser's local storage (the stored players
  and \<^verbatim>\<open>lastUpdated\<close>). \<^verbatim>\<open>supabase\<close> tells whether a backend client is configured;
  \<^verbatim>\<open>rankingsLoaded\<close> is the list type for which the rankings view has asked the backend,
  if any. The page that \<^verbatim>\<open>render()\<close> builds from these fields is not part of the state.
\<close>

record tracker =
  players :: "player list"
  storage :: "(player list \<times> string) option"
  syncStatus :: "(status_msg \<times> status_type) option"
  supabase :: bool
  rankings :: "ranking list"
  rankingsView :: string
  currentFilteredRankings :: "ranking list option"
  rankingsSearchTerm :: string
  hideDraftedInRankings :: bool
  rankingsLoaded :: "string option"

definition setSyncStatus :: "status_msg \<Rightarrow> status_type \<Rightarrow> tracker \<Rightarrow> tracker" where
  "setSyncStatus message type st = st\<lparr>syncStatus := Some (message, type)\<rparr>"

text \<open>\<^verbatim>\<open>JSON.stringify\<close> leaves out a property whose value is \<^verbatim>\<open>undefined\<close>.\<close>

definition json_player :: "player \<Rightarrow> player" where
  "json_player p = (\<lambda>k. case p k of Some JUndefined \<Rightarrow> None | x \<Rightarrow> x)"

definition saveToStorage :: "string \<Rightarrow> tracker \<Rightarrow> tracker" where
  "saveToStorage now st = st\<lparr>storage := Some (map json_player (players st), now)\<rparr>"

section \<open>Bulk merge of a remote snapshot\<close>

text \<open>
  \<^verbatim>\<open>existingPlayerMap\<close> is a JavaScript \<^verbatim>\<open>Map\<close> from identifier to player object, filled
  in array order, so that a later player with the same identifier replaces the earlier
  entry. The objects it holds are the ones in \<^verbatim>\<open>this.players\<close>; the model keeps their
  positions in the array, which the merge never moves.
\<close>

definition existingPlayerMap :: "player list \<Rightarrow> (jsval \<rightharpoonup> nat)" where
  "existingPlayerMap ps = fold (\<lambda>i m. m(get (ps ! i) K_id \<mapsto> i)) [0..<length ps] Map.empty"

text \<open>
  The branch \<^verbatim>\<open>if (existingPlayer) { ... }\<close>: \<^verbatim>\<open>Object.assign\<close> overwrites every property
  the remote record has, then the local draft is put back when the local player was
  drafted and the remote record is not.
\<close>

definition mergeOne :: "player \<Rightarrow> player \<Rightarrow> player" where
  "mergeOne existingPlayer supabasePlayer =
     (let wasDraftedLocally = get existingPlayer K_drafted;
          localOwner = get existingPlayer K_fantasyOwner;
          localNotes = get existingPlayer K_draftNotes;
          localDraftDate = get existingPlayer K_draftedDate;
          assigned = existingPlayer ++ supabasePlayer
      in if truthy wasDraftedLocally \<and>
            (\<not> truthy (get supabasePlayer K_drafted) \<or> get supabasePlayer K_drafted = JBool False)
         then assigned(K_drafted \<mapsto> JBool True, K_fantasyOwner \<mapsto> localOwner,
                       K_draftNotes \<mapsto> localNotes, K_draftedDate \<mapsto> localDraftDate)
         else assigned)"

text \<open>The body of \<^verbatim>\<open>supabasePlayers.forEach\<close>, for the map built before the loop.\<close>

definition mergeStep :: "(jsval \<rightharpoonup> nat) \<Rightarrow> player \<Rightarrow> player list \<Rightarrow> player list" where
  "mergeStep m supabasePlayer ps =
     (if isInvalidId (get supabasePlayer K_id) then ps
      else case m (get supabasePlayer K_id) of
             Some i \<Rightarrow> ps[i := mergeOne (ps ! i) supabasePlayer]
           | None \<Rightarrow> ps @ [supabasePlayer])"

definition mergePlayers :: "player list \<Rightarrow> player list \<Rightarrow> player list" where
  "mergePlayers supabasePlayers ps = fold (mergeStep (existingPlayerMap ps)) supabasePlayers ps"

definition mergeSupabaseData :: "string \<Rightarrow> player list \<Rightarrow> tracker \<Rightarrow> tracker" where
  "mergeSupabaseData now supabasePlayers st =
     saveToStorage now (st\<lparr>players := mergePlayers supabasePlayers (players st)\<rparr>)"

section \<open>Local operations\<close>

text \<open>
  An operation that can raise returns an \<open>outcome\<close>: either it ran to its end, or it raised
  and left the tracker in the state given (JavaScript does not undo what ran before the
  exception).
\<close>

datatype outcome = Done tracker | Threw error tracker

fun state_of :: "outcome \<Rightarrow> tracker" where
  "state_of (Done st) = st"
| "state_of (Threw e st) = st"

text \<open>\<^verbatim>\<open>findIndex\<close>: the position of the first element that satisfies the test.\<close>

fun findIndex :: "('a \<Rightarrow> bool) \<Rightarrow> 'a list \<Rightarrow> nat option" where
  "findIndex P [] = None"
| "findIndex P (x # xs) = (if P x then Some 0 else map_option Suc (findIndex P xs))"

text \<open>\<^verbatim>\<open>trim()\<close> removes white space at both ends.\<close>

definition is_space :: "char \<Rightarrow> bool" where
  "is_space c = ((of_char c :: nat) \<in> {9, 10, 11, 12, 13, 32, 160})"

definition trim :: "string \<Rightarrow> string" where
  "trim s = rev (dropWhile is_space (rev (dropWhile is_space s)))"


record ownerData =
  od_owner :: "string option"
  od_notes :: "string option"

text \<open>\<^verbatim>\<open>x?.trim() || ''\<close>\<close>

definition trim_or_empty :: "string option \<Rightarrow> string" where
  "trim_or_empty x = (case x of None \<Rightarrow> [] | Some s \<Rightarrow> trim s)"


text \<open>
  \<^verbatim>\<open>draftPlayer\<close> changes the first player with the identifier, in place.
  \<^verbatim>\<open>ownerData.owner.trim()\<close> raises when there is no owner, after \<^verbatim>\<open>drafted\<close> was set.
\<close>

definition draftPlayer :: "string \<Rightarrow> string \<Rightarrow> ownerData \<Rightarrow> tracker \<Rightarrow> outcome" where
  "draftPlayer now playerId od st =
     (case findIndex (\<lambda>p. get p K_id = JStr playerId) (players st) of
        None \<Rightarrow> Done st
      | Some i \<Rightarrow>
          let player = players st ! i in
          (case od_owner od of
             None \<Rightarrow> Threw TypeError
                       (st\<lparr>players := (players st)[i := player(K_drafted \<mapsto> JBool True)]\<rparr>)
           | Some owner \<Rightarrow>
               Done (saveToStorage now
                 (st\<lparr>players := (players st)
                    [i := player(K_drafted \<mapsto> JBool True,
                                 K_fantasyOwner \<mapsto> JStr (trim owner),
                                 K_draftNotes \<mapsto> JStr (trim_or_empty (od_notes od)),
                                 K_draftedDate \<mapsto> JStr now)]\<rparr>))))"



text \<open>
  What a call to the backend can come to: a reply that carries \<^verbatim>\<open>data\<close> (possibly
  \<^verbatim>\<open>null\<close>), a reply that carries \<^verbatim>\<open>error\<close>, or a rejected promise (the \<^verbatim>\<open>await\<close>
  raises).
\<close>

datatype 'a response = Reply "'a option" | QueryError | Rejected


section \<open>Loading the remote snapshot\<close>

definition loadFromSupabase :: "string \<Rightarrow> row list response \<Rightarrow> tracker \<Rightarrow> tracker" where
  "loadFromSupabase now resp st =
     (if \<not> supabase st then setSyncStatus Msg_not_configured Error st
      else
        let st1 = setSyncStatus Msg_loading Loading st in
        (case resp of
           Rejected \<Rightarrow> setSyncStatus Msg_error_loading Error st1
         | QueryError \<Rightarrow> setSyncStatus Msg_error_loading Error st1
         | Reply None \<Rightarrow> setSyncStatus Msg_no_players Error st1
         | Reply (Some data) \<Rightarrow>
             if data = [] then setSyncStatus Msg_no_players Error st1
             else (case convert_all now data of
                     Inl e \<Rightarrow> setSyncStatus Msg_error_loading Error st1
                   | Inr supabasePlayers \<Rightarrow>
                       setSyncStatus (Msg_loaded (length data)) Success
                         (mergeSupabaseData now supabasePlayers st1))))"

section \<open>Real-time events\<close>

text \<open>\<^verbatim>\<open>Object.keys\<close>, for the property names the tracker uses.\<close>

definition all_fields :: "field list" where
  "all_fields = [K_id, K_name, K_position, K_mlbTeam, K_notes, K_headshotUrl, K_fantasyOwner,
                 K_drafted, K_draftNotes, K_starred, K_addedDate, K_draftedDate]"

definition keys :: "player \<Rightarrow> field list" where
  "keys p = filter (\<lambda>k. p k \<noteq> None) all_fields"

definition handleRealtimeInsert :: "string \<Rightarrow> row \<Rightarrow> tracker \<Rightarrow> outcome" where
  "handleRealtimeInsert now newPlayer st =
     (case convert now newPlayer of
        Inl e \<Rightarrow> Threw e st
      | Inr player \<Rightarrow>
          (case findIndex (\<lambda>p. get p K_id = get player K_id) (players st) of
             None \<Rightarrow> Done (saveToStorage now (st\<lparr>players := players st @ [player]\<rparr>))
           | Some i \<Rightarrow> Done st))"

text \<open>
  \<^verbatim>\<open>handleRealtimeUpdate(updatedPlayer)\<close>, the second method of that name (line 1185):
  the record is replaced by \<^verbatim>\<open>{...currentPlayer, ...playerUpdate}\<close> and saved only when
  one of the properties of \<^verbatim>\<open>playerUpdate\<close> differs (\<^verbatim>\<open>!==\<close>) from the current one.
\<close>

definition hasChanges :: "player \<Rightarrow> player \<Rightarrow> bool" where
  "hasChanges currentPlayer playerUpdate =
     list_ex (\<lambda>key. get currentPlayer key \<noteq> get playerUpdate key) (keys playerUpdate)"

definition handleRealtimeUpdate :: "string \<Rightarrow> row \<Rightarrow> tracker \<Rightarrow> outcome" where
  "handleRealtimeUpdate now updatedPlayer st =
     (case convert now updatedPlayer of
        Inl e \<Rightarrow> Threw e st
      | Inr playerUpdate \<Rightarrow>
          (case findIndex (\<lambda>p. get p K_id = get playerUpdate K_id) (players st) of
             None \<Rightarrow> Done st
           | Some existingIndex \<Rightarrow>
               let currentPlayer = players st ! existingIndex in
               if hasChanges currentPlayer playerUpdate
               then Done (saveToStorage now
                      (st\<lparr>players := (players st)
                         [existingIndex := currentPlayer ++ playerUpdate]\<rparr>))
               else Done st))"

text \<open>\<^verbatim>\<open>splice(existingIndex, 1)\<close> takes out the one element at that position.\<close>

definition splice1 :: "nat \<Rightarrow> 'a list \<Rightarrow> 'a list" where
  "splice1 i xs = take i xs @ drop (Suc i) xs"

definition handleRealtimeDelete :: "string \<Rightarrow> row \<Rightarrow> tracker \<Rightarrow> outcome" where
  "handleRealtimeDelete now deletedPlayer st =
     (case r_id deletedPlayer of
        None \<Rightarrow> Threw TypeError st
      | Some playerId \<Rightarrow>
          (case findIndex (\<lambda>p. get p K_id = JStr playerId) (players st) of
             None \<Rightarrow> Done st
           | Some existingIndex \<Rightarrow>
               Done (saveToStorage now
                 (st\<lparr>players := splice1 existingIndex (players st)\<rparr>))))"

text \<open>
  A change event of the subscription: \<^verbatim>\<open>{eventType, new, old}\<close>. The class body declares
  \<^verbatim>\<open>handleRealtimeUpdate\<close> twice: first (line 1146) a dispatcher on \<^verbatim>\<open>eventType\<close>, then
  (line 1185) the handler of an updated row. A class keeps the last method of a name, so
  the dispatcher is never the method called; it is modelled as
  \<open>handleRealtimeUpdate_dispatcher\<close> for comparison only.
\<close>

datatype event_type = INSERT | UPDATE | DELETE

record payload =
  eventType :: event_type
  new :: row
  old :: row

definition handleRealtimeUpdate_dispatcher :: "string \<Rightarrow> payload \<Rightarrow> tracker \<Rightarrow> outcome" where
  "handleRealtimeUpdate_dispatcher now pl st =
     (case eventType pl of
        INSERT \<Rightarrow> handleRealtimeInsert now (new pl) st
      | UPDATE \<Rightarrow> handleRealtimeUpdate now (new pl) st
      | DELETE \<Rightarrow> handleRealtimeDelete now (old pl) st)"

text \<open>
  The subscription callback \<^verbatim>\<open>(payload) => this.handleRealtimeUpdate(payload)\<close> therefore
  hands the event itself to the row handler, which reads \<^verbatim>\<open>id\<close>, \<^verbatim>\<open>name\<close>, ... from it;
  an event object has none of these properties.
\<close>

definition payload_as_row :: "payload \<Rightarrow> row" where
  "payload_as_row pl =
     \<lparr>r_id = None, r_name = None, r_position = None, r_team = None, r_notes = None,
      r_owner_id = None, r_drafted = None, r_draft_notes = None, r_created_at = None\<rparr>"

definition on_postgres_changes :: "string \<Rightarrow> payload \<Rightarrow> tracker \<Rightarrow> outcome" where
  "on_postgres_changes now pl st = handleRealtimeUpdate now (payload_as_row pl) st"

section \<open>Sending players to the backend\<close>

















section \<open>Rankings\<close>

text \<open>
  \<^verbatim>\<open>getFilteredRankings\<close>. \<^verbatim>\<open>lower\<close> stands for \<^verbatim>\<open>String.prototype.toLowerCase\<close>; calling
  it on a property that is not a string raises a TypeError, and \<^verbatim>\<open>||\<close> stops at the first
  property that matches.
\<close>

fun filterE :: "('a \<Rightarrow> error + bool) \<Rightarrow> 'a list \<Rightarrow> error + 'a list" where
  "filterE f [] = Inr []"
| "filterE f (x # xs) =
     (case f x of
        Inl e \<Rightarrow> Inl e
      | Inr b \<Rightarrow> (case filterE f xs of
                    Inl e \<Rightarrow> Inl e
                  | Inr ys \<Rightarrow> Inr (if b then x # ys else ys)))"

fun includesAny :: "(string \<Rightarrow> string) \<Rightarrow> string \<Rightarrow> jsval list \<Rightarrow> error + bool" where
  "includesAny lower term [] = Inr False"
| "includesAny lower term (v # vs) =
     (case v of
        JStr s \<Rightarrow> if includes_js (lower s) term then Inr True else includesAny lower term vs
      | _ \<Rightarrow> Inl TypeError)"

definition matchesSearch :: "(string \<Rightarrow> string) \<Rightarrow> string \<Rightarrow> player list \<Rightarrow> ranking \<Rightarrow> error + bool" where
  "matchesSearch lower term ps ranking =
     (case find (\<lambda>p. get p K_id = JStr (rk_player_id ranking)) ps of
        None \<Rightarrow> Inr False
      | Some player \<Rightarrow>
          includesAny lower term
            [get player K_name, get player K_position, get player K_mlbTeam, get player K_notes])"

definition notDrafted :: "player list \<Rightarrow> ranking \<Rightarrow> bool" where
  "notDrafted ps ranking =
     (case find (\<lambda>p. get p K_id = JStr (rk_player_id ranking)) ps of
        None \<Rightarrow> False
      | Some player \<Rightarrow> \<not> truthy (get player K_drafted))"

definition getFilteredRankings :: "(string \<Rightarrow> string) \<Rightarrow> tracker \<Rightarrow> error + ranking list" where
  "getFilteredRankings lower st =
     (case (if rankingsSearchTerm st \<noteq> []
            then filterE (matchesSearch lower (lower (rankingsSearchTerm st)) (players st))
                   (rankings st)
            else Inr (rankings st)) of
        Inl e \<Rightarrow> Inl e
      | Inr filteredRankings \<Rightarrow>
          Inr (if hideDraftedInRankings st
               then filter (notDrafted (players st)) filteredRankings
               else filteredRankings))"

text \<open>The records inserted by a reorder.\<close>

record new_ranking =
  nr_player_id :: string
  nr_list_type :: string
  nr_rank_index :: nat
  nr_updated_at :: string





text \<open>The calls made to the backend, in the order they are made.\<close>

record init_ranking =
  ir_player_id :: jsval
  ir_list_type :: string
  ir_rank_index :: nat

datatype request =
  Delete_rankings string
| Insert_rankings "new_ranking list"
| Insert_initial "init_ranking list"
| Select_rankings string


text \<open>
  \<^verbatim>\<open>loadRankings\<close>, from the reply of the backend on.
\<close>

definition loadRankings :: "ranking list response \<Rightarrow> tracker \<Rightarrow> tracker" where
  "loadRankings reply st =
     (if \<not> supabase st then st\<lparr>rankings := []\<rparr>
      else (case reply of
              Rejected \<Rightarrow> st\<lparr>rankings := []\<rparr>
            | QueryError \<Rightarrow> st\<lparr>rankings := []\<rparr>
            | Reply data \<Rightarrow> st\<lparr>rankings := (case data of None \<Rightarrow> [] | Some rs \<Rightarrow> rs)\<rparr>))"

text \<open>
  \<^verbatim>\<open>initializeRankings\<close> picks and sorts the players before its \<^verbatim>\<open>try\<close>:
  \<^verbatim>\<open>
  let playersToRank = [...this.players];
  if (listType === 'hitter')
      playersToRank = playersToRank.filter(p => !p.position || !p.position.includes('P'));
  else if (listType === 'pitcher')
      playersToRank = playersToRank.filter(p => p.position && p.position.includes('P'));
  playersToRank.sort((a, b) => a.name.localeCompare(b.name));
  \<close>
  A position that is truthy and not a string has no \<^verbatim>\<open>includes\<close>, and the filter raises.
  The comparator raises when the name of its first argument is not a string. \<^verbatim>\<open>sortBy\<close>
  stands for \<^verbatim>\<open>Array.prototype.sort\<close> of the runtime, which decides the pairs to compare
  and raises when the comparator does, and \<^verbatim>\<open>localeCompare\<close> for the order of the
  locale. An error raised here leaves the function before any call to the backend and
  before any status is set.
\<close>

definition isHitter :: "player \<Rightarrow> error + bool" where
  "isHitter p =
     (if \<not> truthy (get p K_position) then Inr True
      else case get p K_position of
             JStr s \<Rightarrow> Inr (\<not> includes_js s ''P'')
           | _ \<Rightarrow> Inl TypeError)"

definition isPitcher :: "player \<Rightarrow> error + bool" where
  "isPitcher p =
     (if \<not> truthy (get p K_position) then Inr False
      else case get p K_position of
             JStr s \<Rightarrow> Inr (includes_js s ''P'')
           | _ \<Rightarrow> Inl TypeError)"

definition playersToRank :: "string \<Rightarrow> player list \<Rightarrow> error + player list" where
  "playersToRank listType ps =
     (if listType = ''hitter'' then filterE isHitter ps
      else if listType = ''pitcher'' then filterE isPitcher ps
      else Inr ps)"

definition compareNames :: "(string \<Rightarrow> jsval \<Rightarrow> int) \<Rightarrow> player \<Rightarrow> player \<Rightarrow> error + int" where
  "compareNames localeCompare a b =
     (case get a K_name of
        JStr s \<Rightarrow> Inr (localeCompare s (get b K_name))
      | _ \<Rightarrow> Inl TypeError)"

definition rankingData :: "string \<Rightarrow> player list \<Rightarrow> init_ranking list" where
  "rankingData listType ps =
     map (\<lambda>(index, player).
            \<lparr>ir_player_id = get player K_id, ir_list_type = listType,
             ir_rank_index = index + 1\<rparr>)
       (zip [0..<length ps] ps)"

definition initializeRankings ::
  "((player \<Rightarrow> player \<Rightarrow> error + int) \<Rightarrow> player list \<Rightarrow> error + player list) \<Rightarrow>
   (string \<Rightarrow> jsval \<Rightarrow> int) \<Rightarrow> string \<Rightarrow> unit response \<Rightarrow> ranking list response \<Rightarrow>
   tracker \<Rightarrow> outcome \<times> request list" where
  "initializeRankings sortBy localeCompare listType reply reloaded st =
     (if \<not> supabase st then (Done (setSyncStatus Msg_not_available Error st), [])
      else
        (case playersToRank listType (players st) of
           Inl e \<Rightarrow> (Threw e st, [])
         | Inr picked \<Rightarrow>
             (case sortBy (compareNames localeCompare) picked of
                Inl e \<Rightarrow> (Threw e st, [])
              | Inr ranked \<Rightarrow>
                  let data = rankingData listType ranked in
                  (case reply of
                     Rejected \<Rightarrow>
                       (Done (setSyncStatus Msg_error_initializing Error st),
                        [Insert_initial data])
                   | QueryError \<Rightarrow>
                       (Done (setSyncStatus Msg_error_initializing Error st),
                        [Insert_initial data])
                   | Reply x \<Rightarrow>
                       (Done (loadRankings reloaded (setSyncStatus Msg_initialized Success st)),
                        [Insert_initial data, Select_rankings listType])))))"



section \<open>Notions used in the proofs\<close>

text \<open>The test of \<^const>\<open>mergeOne\<close> that puts the local draft back.\<close>

definition restoring :: "player \<Rightarrow> player \<Rightarrow> bool" where
  "restoring p r \<longleftrightarrow> truthy (get p K_drafted) \<and>
     (\<not> truthy (get r K_drafted) \<or> get r K_drafted = JBool False)"

text \<open>
  A remote record is settled in a collection when the player that a merge would pick for it
  is left as it is by merging the record into it.
\<close>

definition settled :: "player list \<Rightarrow> player \<Rightarrow> bool" where
  "settled Q r \<longleftrightarrow> (\<exists>j. existingPlayerMap Q (get r K_id) = Some j \<and> mergeOne (Q ! j) r = Q ! j)"


text \<open>
  What reaches the tracker from the backend about players it holds: a snapshot loaded in
  bulk, an updated row handed to the update handler, and a change event as the
  subscription delivers it.
\<close>

datatype remote_update =
  Snapshot string "row list response"
| Row_update string row
| Change_event string payload

fun apply_update :: "remote_update \<Rightarrow> tracker \<Rightarrow> tracker" where
  "apply_update (Snapshot now resp) st = loadFromSupabase now resp st"
| "apply_update (Row_update now updatedPlayer) st = state_of (handleRealtimeUpdate now updatedPlayer st)"
| "apply_update (Change_event now pl) st = state_of (on_postgres_changes now pl st)"







section \<open>Example data\<close>

text \<open>Concrete players, records and trackers on which the operations are run below.\<close>

definition ex_uuid :: string where
  "ex_uuid = ''123e4567-e89b-12d3-a456-426614174000''"

definition ex_uuid2 :: string where
  "ex_uuid2 = ''9b2c1d3e-0f4a-4b5c-8d6e-7f8091a2b3c4''"

definition ex_now :: string where
  "ex_now = ''2024-03-01T12:00:00.000Z''"

definition ex_tracker :: "player list \<Rightarrow> tracker" where
  "ex_tracker ps =
     \<lparr>players = ps, storage = None, syncStatus = None, supabase = True, rankings = [],
      rankingsView = ''overall'', currentFilteredRankings = None, rankingsSearchTerm = [],
      hideDraftedInRankings = False, rankingsLoaded = None\<rparr>"

text \<open>A remote row of Mike Trout, and the record the conversion makes of it.\<close>

definition ex_row :: "string \<Rightarrow> bool \<Rightarrow> string option \<Rightarrow> row" where
  "ex_row i d owner =
     \<lparr>r_id = Some i, r_name = Some ''Mike Trout'', r_position = Some ''OF'',
      r_team = Some ''LAA'', r_notes = None, r_owner_id = owner, r_drafted = Some d,
      r_draft_notes = None, r_created_at = Some ''2024-01-15T08:00:00.000Z''\<rparr>"

definition ex_remote :: "string \<Rightarrow> bool \<Rightarrow> string \<Rightarrow> player" where
  "ex_remote i d owner =
     [K_id \<mapsto> JStr i, K_name \<mapsto> JStr ''Mike Trout'', K_position \<mapsto> JStr ''OF'',
      K_mlbTeam \<mapsto> JStr ''LAA'', K_notes \<mapsto> JStr [], K_fantasyOwner \<mapsto> JStr owner,
      K_drafted \<mapsto> JBool d, K_draftNotes \<mapsto> JStr [],
      K_addedDate \<mapsto> JStr ''2024-01-15T08:00:00.000Z'']"

text \<open>The same player held locally, starred and drafted by Team A.\<close>

definition ex_local :: player where
  "ex_local =
     [K_id \<mapsto> JStr ex_uuid, K_name \<mapsto> JStr ''Mike Trout'', K_position \<mapsto> JStr ''OF'',
      K_mlbTeam \<mapsto> JStr ''LAA'', K_notes \<mapsto> JStr [], K_headshotUrl \<mapsto> JStr [],
      K_fantasyOwner \<mapsto> JStr ''Team A'', K_drafted \<mapsto> JBool True,
      K_draftNotes \<mapsto> JStr ''1st pick'', K_starred \<mapsto> JBool True,
      K_addedDate \<mapsto> JStr ''2024-01-15T08:00:00.000Z'',
      K_draftedDate \<mapsto> JStr ''2024-02-28T20:15:00.000Z'']"

text \<open>A change event of the subscription: another user has undrafted the player.\<close>

definition ex_update_event :: payload where
  "ex_update_event =
     \<lparr>eventType = UPDATE, new = ex_row ex_uuid False None,
      old = ex_row ex_uuid True (Some ex_uuid2)\<rparr>"










section \<open>Facts about the classifier\<close>

lemma includes_js_single: "includes_js s [c] \<longleftrightarrow> c \<in> set s"
  by (induction s) auto

lemma match_letters_iff: "match_letters s \<longleftrightarrow> s \<noteq> [] \<and> list_all is_letter s"
  by (induction s rule: match_letters.induct) auto

lemma hyphen_not_letter: "\<not> is_letter CHR ''-''"
  by (simp add: is_letter_def)

lemma match_letters_no_hyphen: "match_letters s \<Longrightarrow> CHR ''-'' \<notin> set s"
  using hyphen_not_letter by (auto simp: match_letters_iff list_all_iff)

lemma canonical_uuid_valid: "canonical_uuid s \<Longrightarrow> \<not> isInvalidId (JStr s)"
proof -
  assume c: "canonical_uuid s"
  then have len: "length s = 36" and h: "s ! 8 = CHR ''-''"
    by (simp_all add: canonical_uuid_def)
  from len have "s ! 8 \<in> set s" by (intro nth_mem) simp
  with h have mem: "CHR ''-'' \<in> set s" by simp
  then have "\<not> match_letters s" using match_letters_no_hyphen by blast
  moreover from len have "s \<noteq> []" by auto
  ultimately show ?thesis
    using len mem by (simp add: isInvalidId_def includes_js_single)
qed

text \<open>
  C5. For a string, the classifier answers valid exactly when the string is non-empty, has
  at least 20 characters, contains a hyphen and is not made of letters only. So a string
  shorter than 20, or without a hyphen, or of letters only, is invalid, and a canonical
  36-character hyphenated identifier is valid.
\<close>

theorem classifier_valid_iff:
  "(\<not> isInvalidId (JStr s) \<longleftrightarrow>
      s \<noteq> [] \<and> 20 \<le> length s \<and> CHR ''-'' \<in> set s \<and> \<not> list_all is_letter s)
   \<and> (length s < 20 \<or> CHR ''-'' \<notin> set s \<or> (s \<noteq> [] \<and> list_all is_letter s)
        \<longrightarrow> isInvalidId (JStr s))
   \<and> (canonical_uuid s \<longrightarrow> \<not> isInvalidId (JStr s))"
proof -
  have a: "\<not> isInvalidId (JStr s) \<longleftrightarrow>
      s \<noteq> [] \<and> 20 \<le> length s \<and> CHR ''-'' \<in> set s \<and> \<not> list_all is_letter s"
    by (auto simp: isInvalidId_def includes_js_single match_letters_iff)
  have b: "length s < 20 \<or> CHR ''-'' \<notin> set s \<or> (s \<noteq> [] \<and> list_all is_letter s)
        \<longrightarrow> isInvalidId (JStr s)"
    by (auto simp: isInvalidId_def includes_js_single match_letters_iff)
  show ?thesis using a b canonical_uuid_valid by blast
qed

theorem classifier_valid_iff_witness:
  "canonical_uuid ''123e4567-e89b-12d3-a456-426614174000''
   \<and> \<not> isInvalidId (JStr ''123e4567-e89b-12d3-a456-426614174000'')
   \<and> isInvalidId (JStr ''mets'')
   \<and> isInvalidId (JStr ''12345678901234567890123'')
   \<and> isInvalidId (JStr ''abcdefghijklmnopqrstuvwxyz'')"
proof -
  have c: "canonical_uuid ''123e4567-e89b-12d3-a456-426614174000''"
    by (simp add: canonical_uuid_def is_hex_def)
  have s: "length ''mets'' < 20" by simp
  have d: "CHR ''-'' \<notin> set ''12345678901234567890123''" by simp
  have l: "''abcdefghijklmnopqrstuvwxyz'' \<noteq> [] \<and> list_all is_letter ''abcdefghijklmnopqrstuvwxyz''"
    by (simp add: is_letter_def)
  show ?thesis
    using c s d l
      classifier_valid_iff [of "''123e4567-e89b-12d3-a456-426614174000''"]
      classifier_valid_iff [of "''mets''"]
      classifier_valid_iff [of "''12345678901234567890123''"]
      classifier_valid_iff [of "''abcdefghijklmnopqrstuvwxyz''"]
    by blast
qed

section \<open>Facts about the merge\<close>

lemma epm_snoc:
  "existingPlayerMap (ps @ [p]) = (existingPlayerMap ps)(get p K_id \<mapsto> length ps)"
proof -
  have "fold (\<lambda>i m. m(get ((ps @ [p]) ! i) K_id \<mapsto> i)) [0..<length ps] Map.empty
      = fold (\<lambda>i m. m(get (ps ! i) K_id \<mapsto> i)) [0..<length ps] Map.empty"
    by (rule fold_cong) (auto simp: nth_append)
  then show ?thesis by (simp add: existingPlayerMap_def)
qed

lemma epm_Some:
  "existingPlayerMap ps v = Some i \<Longrightarrow> i < length ps \<and> get (ps ! i) K_id = v"
proof (induction ps rule: rev_induct)
  case Nil
  then show ?case by (simp add: existingPlayerMap_def)
next
  case (snoc p ps)
  then show ?case
    by (cases "get p K_id = v") (auto simp: epm_snoc nth_append less_Suc_eq)
qed

lemma epm_cong:
  assumes "map (\<lambda>p. get p K_id) ps = map (\<lambda>p. get p K_id) qs"
  shows "existingPlayerMap ps = existingPlayerMap qs"
proof -
  from assms have len: "length ps = length qs" by (rule map_eq_imp_length_eq)
  have "\<And>i. i < length ps \<Longrightarrow> get (ps ! i) K_id = get (qs ! i) K_id"
    using assms len by (metis nth_map)
  then have "fold (\<lambda>i m. m(get (ps ! i) K_id \<mapsto> i)) [0..<length ps] Map.empty
      = fold (\<lambda>i m. m(get (qs ! i) K_id \<mapsto> i)) [0..<length ps] Map.empty"
    by (intro fold_cong) auto
  then show ?thesis by (simp add: existingPlayerMap_def len)
qed

lemma epm_update:
  assumes "i < length ps" "get p K_id = get (ps ! i) K_id"
  shows "existingPlayerMap (ps[i := p]) = existingPlayerMap ps"
proof (rule epm_cong)
  have "(map (\<lambda>p. get p K_id) ps)[i := get (ps ! i) K_id] = map (\<lambda>p. get p K_id) ps"
    using assms(1) by (metis list_update_id map_update)
  then show "map (\<lambda>p. get p K_id) (ps[i := p]) = map (\<lambda>p. get p K_id) ps"
    using assms by (simp add: map_update)
qed

lemma restoring_iff: "restoring p r \<longleftrightarrow> truthy (get p K_drafted) \<and> \<not> truthy (get r K_drafted)"
  by (auto simp: restoring_def)

lemma mergeOne_restoring:
  "restoring p r \<Longrightarrow> mergeOne p r =
     (p ++ r)(K_drafted \<mapsto> JBool True, K_fantasyOwner \<mapsto> get p K_fantasyOwner,
              K_draftNotes \<mapsto> get p K_draftNotes, K_draftedDate \<mapsto> get p K_draftedDate)"
  unfolding restoring_def mergeOne_def Let_def by (rule if_P)

lemma mergeOne_plain: "\<not> restoring p r \<Longrightarrow> mergeOne p r = p ++ r"
  unfolding restoring_def mergeOne_def Let_def by (rule if_not_P)

lemma map_add_self: "(m :: 'a \<rightharpoonup> 'b) ++ m = m"
  by (rule ext) (simp add: map_add_def split: option.splits)

lemma get_add: "get (p ++ r) k = (if r k = None then get p k else get r k)"
  by (simp add: get_def map_add_def split: option.splits)

lemma get_upd: "get (p(k \<mapsto> v)) k' = (if k' = k then v else get p k')"
  by (simp add: get_def)

lemma map_add_twice: "((p :: 'a \<rightharpoonup> 'b) ++ r) ++ r = p ++ r"
  by (rule ext) (simp add: map_add_def split: option.splits)

lemma mergeOne_idem: "mergeOne (mergeOne p r) r = mergeOne p r"
proof (cases "restoring p r")
  case True
  let ?q = "mergeOne p r"
  have q: "?q = (p ++ r)(K_drafted \<mapsto> JBool True, K_fantasyOwner \<mapsto> get p K_fantasyOwner,
              K_draftNotes \<mapsto> get p K_draftNotes, K_draftedDate \<mapsto> get p K_draftedDate)"
    using True by (rule mergeOne_restoring)
  have g: "get ?q K_drafted = JBool True" "get ?q K_fantasyOwner = get p K_fantasyOwner"
      "get ?q K_draftNotes = get p K_draftNotes" "get ?q K_draftedDate = get p K_draftedDate"
    by (simp_all add: q get_upd)
  have "restoring ?q r" using True g(1) by (simp add: restoring_iff)
  then have "mergeOne ?q r =
     (?q ++ r)(K_drafted \<mapsto> JBool True, K_fantasyOwner \<mapsto> get ?q K_fantasyOwner,
              K_draftNotes \<mapsto> get ?q K_draftNotes, K_draftedDate \<mapsto> get ?q K_draftedDate)"
    by (rule mergeOne_restoring)
  also have "\<dots> = (?q ++ r)(K_drafted \<mapsto> JBool True, K_fantasyOwner \<mapsto> get p K_fantasyOwner,
              K_draftNotes \<mapsto> get p K_draftNotes, K_draftedDate \<mapsto> get p K_draftedDate)"
    by (simp only: g)
  also have "\<dots> = ?q"
    by (subst (1 2) q, rule ext) (simp add: map_add_def split: option.splits)
  finally show ?thesis .
next
  case False
  then have q: "mergeOne p r = p ++ r" by (rule mergeOne_plain)
  have "\<not> restoring (p ++ r) r"
    using False by (auto simp: restoring_iff get_add)
  then have "mergeOne (p ++ r) r = (p ++ r) ++ r" by (rule mergeOne_plain)
  then show ?thesis by (simp add: q map_add_twice)
qed

lemma mergeOne_self: "mergeOne r r = r"
proof -
  have "\<not> restoring r r" by (auto simp: restoring_iff)
  then show ?thesis by (simp add: mergeOne_plain map_add_self)
qed

lemma valid_id_present: "\<not> isInvalidId (get r K_id) \<Longrightarrow> r K_id = Some (get r K_id)"
  by (cases "r K_id") (simp_all add: isInvalidId_def get_def)

lemma mergeOne_id:
  assumes "\<not> isInvalidId (get r K_id)"
  shows "get (mergeOne p r) K_id = get r K_id"
proof -
  have "r K_id = Some (get r K_id)" using assms by (rule valid_id_present)
  then have "get (p ++ r) K_id = get r K_id" by (simp add: get_add)
  then show ?thesis
    by (cases "restoring p r") (simp_all add: mergeOne_restoring mergeOne_plain get_upd)
qed

lemma mergeOne_restores:
  assumes "truthy (get p K_drafted)" "\<not> truthy (get r K_drafted)"
  shows "get (mergeOne p r) K_drafted = JBool True"
    and "get (mergeOne p r) K_fantasyOwner = get p K_fantasyOwner"
    and "get (mergeOne p r) K_draftNotes = get p K_draftNotes"
    and "get (mergeOne p r) K_draftedDate = get p K_draftedDate"
proof -
  have "restoring p r" using assms by (simp add: restoring_iff)
  then have q: "mergeOne p r =
     (p ++ r)(K_drafted \<mapsto> JBool True, K_fantasyOwner \<mapsto> get p K_fantasyOwner,
              K_draftNotes \<mapsto> get p K_draftNotes, K_draftedDate \<mapsto> get p K_draftedDate)"
    by (rule mergeOne_restoring)
  show "get (mergeOne p r) K_drafted = JBool True"
    and "get (mergeOne p r) K_fantasyOwner = get p K_fantasyOwner"
    and "get (mergeOne p r) K_draftNotes = get p K_draftNotes"
    and "get (mergeOne p r) K_draftedDate = get p K_draftedDate"
    by (simp_all add: q get_upd)
qed


lemma mergeStep_keeps_draft:
  assumes m: "\<And>v. m v = Some i \<Longrightarrow> v = idv"
    and r: "get r K_id = idv \<Longrightarrow> \<not> truthy (get r K_drafted)"
    and i: "i < length Q"
    and d: "get (Q ! i) K_drafted = JBool True"
  shows "i < length (mergeStep m r Q) \<and>
         get (mergeStep m r Q ! i) K_drafted = JBool True \<and>
         get (mergeStep m r Q ! i) K_fantasyOwner = get (Q ! i) K_fantasyOwner \<and>
         get (mergeStep m r Q ! i) K_draftNotes = get (Q ! i) K_draftNotes \<and>
         get (mergeStep m r Q ! i) K_draftedDate = get (Q ! i) K_draftedDate"
proof (cases "isInvalidId (get r K_id)")
  case True
  then show ?thesis using i d by (simp add: mergeStep_def)
next
  case False
  show ?thesis
  proof (cases "m (get r K_id)")
    case None
    then show ?thesis using False i d by (simp add: mergeStep_def nth_append)
  next
    case (Some j)
    show ?thesis
    proof (cases "j = i")
      case True
      then have "get r K_id = idv" using Some m by blast
      then have nd: "\<not> truthy (get r K_drafted)" by (rule r)
      have t: "truthy (get (Q ! i) K_drafted)" using d by simp
      show ?thesis
        using False Some True i mergeOne_restores[OF t nd]
        by (simp add: mergeStep_def)
    next
      case ne: False
      then show ?thesis using False Some i d by (simp add: mergeStep_def)
    qed
  qed
qed

lemma fold_mergeStep_keeps_draft:
  assumes m: "\<And>v. m v = Some i \<Longrightarrow> v = idv"
    and r: "\<forall>r\<in>set s. get r K_id = idv \<longrightarrow> \<not> truthy (get r K_drafted)"
    and i: "i < length Q"
    and d: "get (Q ! i) K_drafted = JBool True"
  shows "i < length (fold (mergeStep m) s Q) \<and>
         get (fold (mergeStep m) s Q ! i) K_drafted = JBool True \<and>
         get (fold (mergeStep m) s Q ! i) K_fantasyOwner = get (Q ! i) K_fantasyOwner \<and>
         get (fold (mergeStep m) s Q ! i) K_draftNotes = get (Q ! i) K_draftNotes \<and>
         get (fold (mergeStep m) s Q ! i) K_draftedDate = get (Q ! i) K_draftedDate"
  using r i d
proof (induction s arbitrary: Q)
  case Nil
  then show ?case by simp
next
  case (Cons a s)
  have a: "get a K_id = idv \<Longrightarrow> \<not> truthy (get a K_drafted)" using Cons.prems(1) by simp
  note st = mergeStep_keeps_draft[of m i idv a Q, OF m a Cons.prems(2) Cons.prems(3)]
  have rest: "\<forall>r\<in>set s. get r K_id = idv \<longrightarrow> \<not> truthy (get r K_drafted)"
    using Cons.prems(1) by simp
  from Cons.IH[OF rest, of "mergeStep m a Q"] st
  show ?case by simp
qed

lemma players_merge [simp]:
  "players (mergeSupabaseData now s st) = mergePlayers s (players st)"
  by (simp add: mergeSupabaseData_def saveToStorage_def)

lemma ex_uuid_valid: "\<not> isInvalidId (JStr ex_uuid)"
  by (simp add: isInvalidId_def ex_uuid_def is_letter_def)

lemma epm_one: "existingPlayerMap [p] = [get p K_id \<mapsto> 0]"
  using epm_snoc[of "[]" p] by (simp add: existingPlayerMap_def)


text \<open>
  A player that is drafted keeps its draft through a merge when every record of the snapshot
  with its identifier reports it as not drafted.
\<close>

lemma merge_keeps_draft:
  assumes "i < length (players st)"
    and "get (players st ! i) K_drafted = JBool True"
    and "r \<in> set s" and "\<not> isInvalidId (get r K_id)"
    and "get r K_id = get (players st ! i) K_id"
    and "\<forall>r'\<in>set s. get r' K_id = get r K_id \<longrightarrow> \<not> truthy (get r' K_drafted)"
  shows "get (players (mergeSupabaseData now s st) ! i) K_drafted = JBool True \<and>
         get (players (mergeSupabaseData now s st) ! i) K_fantasyOwner
           = get (players st ! i) K_fantasyOwner \<and>
         get (players (mergeSupabaseData now s st) ! i) K_draftNotes
           = get (players st ! i) K_draftNotes \<and>
         get (players (mergeSupabaseData now s st) ! i) K_draftedDate
           = get (players st ! i) K_draftedDate"
proof -
  have m: "v = get r K_id" if "existingPlayerMap (players st) v = Some i" for v
    using epm_Some[OF that] assms(5) by simp
  from fold_mergeStep_keeps_draft[of "existingPlayerMap (players st)" i "get r K_id" s "players st",
      OF m assms(6) assms(1) assms(2)]
  show ?thesis by (simp only: players_merge mergePlayers_def)
qed

text \<open>
  A snapshot is the result of a query on the remote table of players, which is keyed by
  the identifier: no two of its records share one. In such a snapshot a record with a
  given identifier is the only one.
\<close>

lemma only_record:
  assumes "distinct (map (\<lambda>r. get r K_id) (filter (\<lambda>r. \<not> isInvalidId (get r K_id)) s))"
    and "r \<in> set s" and "\<not> isInvalidId (get r K_id)"
    and "r' \<in> set s" and "get r' K_id = get r K_id"
  shows "r' = r"
proof -
  let ?v = "filter (\<lambda>r. \<not> isInvalidId (get r K_id)) s"
  have "inj_on (\<lambda>r. get r K_id) (set ?v)" using assms(1) by (simp add: distinct_map)
  moreover have "r \<in> set ?v" "r' \<in> set ?v" using assms(2-5) by simp_all
  ultimately show ?thesis using assms(5) by (auto dest: inj_onD)
qed

text \<open>
  C1. Take a remote snapshot (no two records with a valid identifier share it) and in it
  a record whose identifier passes the classifier and is the identifier of a local player
  with \<open>drafted = true\<close>. If the record reports the player as not drafted (\<^verbatim>\<open>drafted\<close> false
  or absent), then after the merge that local player still has \<open>drafted = true\<close> and the
  owner, the draft notes and the draft date it had before the merge. (The player keeps
  its place in the collection, so it is named by its index.)
\<close>

theorem merge_draft_precedence:
  assumes "distinct (map (\<lambda>r. get r K_id) (filter (\<lambda>r. \<not> isInvalidId (get r K_id)) s))"
    and "i < length (players st)"
    and "get (players st ! i) K_drafted = JBool True"
    and "r \<in> set s" and "\<not> isInvalidId (get r K_id)"
    and "get r K_id = get (players st ! i) K_id"
    and "\<not> truthy (get r K_drafted)"
  shows "get (players (mergeSupabaseData now s st) ! i) K_drafted = JBool True \<and>
         get (players (mergeSupabaseData now s st) ! i) K_fantasyOwner
           = get (players st ! i) K_fantasyOwner \<and>
         get (players (mergeSupabaseData now s st) ! i) K_draftNotes
           = get (players st ! i) K_draftNotes \<and>
         get (players (mergeSupabaseData now s st) ! i) K_draftedDate
           = get (players st ! i) K_draftedDate"
proof -
  have "\<forall>r'\<in>set s. get r' K_id = get r K_id \<longrightarrow> \<not> truthy (get r' K_drafted)"
  proof (intro ballI impI)
    fix r' assume "r' \<in> set s" "get r' K_id = get r K_id"
    then have "r' = r" using only_record[OF assms(1) assms(4) assms(5)] by simp
    then show "\<not> truthy (get r' K_drafted)" using assms(7) by simp
  qed
  with assms(2) assms(3) assms(4) assms(5) assms(6) show ?thesis
    by (rule merge_keeps_draft)
qed

text \<open>The theorem at work: Mike Trout, drafted by Team A, against a snapshot of two players
  in which his record says he is not drafted.\<close>

theorem merge_draft_precedence_witness:
  "get (players (mergeSupabaseData ex_now
          [ex_remote ex_uuid False [], ex_remote ex_uuid2 True ''Team B'']
          (ex_tracker [ex_local])) ! 0) K_drafted = JBool True \<and>
   get (players (mergeSupabaseData ex_now
          [ex_remote ex_uuid False [], ex_remote ex_uuid2 True ''Team B'']
          (ex_tracker [ex_local])) ! 0) K_fantasyOwner = JStr ''Team A'' \<and>
   get (players (mergeSupabaseData ex_now
          [ex_remote ex_uuid False [], ex_remote ex_uuid2 True ''Team B'']
          (ex_tracker [ex_local])) ! 0) K_draftNotes = JStr ''1st pick'' \<and>
   get (players (mergeSupabaseData ex_now
          [ex_remote ex_uuid False [], ex_remote ex_uuid2 True ''Team B'']
          (ex_tracker [ex_local])) ! 0) K_draftedDate = JStr ''2024-02-28T20:15:00.000Z''"
proof -
  let ?r = "ex_remote ex_uuid False []"
  let ?s = "[ex_remote ex_uuid False [], ex_remote ex_uuid2 True ''Team B'']"
  let ?st = "ex_tracker [ex_local]"
  have h0: "distinct (map (\<lambda>r. get r K_id) (filter (\<lambda>r. \<not> isInvalidId (get r K_id)) ?s))"
    by (simp add: ex_remote_def get_def ex_uuid_def ex_uuid2_def)
  have h1: "0 < length (players ?st)" by (simp add: ex_tracker_def)
  have h2: "get (players ?st ! 0) K_drafted = JBool True"
    by (simp add: ex_tracker_def ex_local_def get_def)
  have h3: "?r \<in> set ?s" by simp
  have h4: "\<not> isInvalidId (get ?r K_id)"
    using ex_uuid_valid by (simp add: ex_remote_def get_def)
  have h5: "get ?r K_id = get (players ?st ! 0) K_id"
    by (simp add: ex_tracker_def ex_local_def ex_remote_def get_def)
  have h6: "\<not> truthy (get ?r K_drafted)"
    by (simp add: ex_remote_def get_def)
  have l: "get (players ?st ! 0) K_fantasyOwner = JStr ''Team A''"
    "get (players ?st ! 0) K_draftNotes = JStr ''1st pick''"
    "get (players ?st ! 0) K_draftedDate = JStr ''2024-02-28T20:15:00.000Z''"
    by (simp_all add: ex_tracker_def ex_local_def get_def)
  from merge_draft_precedence[OF h0 h1 h2 h3 h4 h5 h6, of ex_now]
  show ?thesis by (simp only: l)
qed

lemma settle_step:
  assumes I1: "\<And>v i. m v = Some i \<Longrightarrow> existingPlayerMap Q v = Some i"
    and I2: "\<And>r'. r' \<in> R \<Longrightarrow> \<not> isInvalidId (get r' K_id) \<Longrightarrow> settled Q r'"
    and fresh: "\<And>r'. r' \<in> R \<Longrightarrow> \<not> isInvalidId (get r' K_id) \<Longrightarrow> \<not> isInvalidId (get r K_id)
                  \<Longrightarrow> get r' K_id \<noteq> get r K_id"
  shows "(\<forall>v i. m v = Some i \<longrightarrow> existingPlayerMap (mergeStep m r Q) v = Some i) \<and>
         (\<forall>r'\<in>insert r R. \<not> isInvalidId (get r' K_id) \<longrightarrow> settled (mergeStep m r Q) r')"
proof (cases "isInvalidId (get r K_id)")
  case True
  then have "mergeStep m r Q = Q" by (simp add: mergeStep_def)
  then show ?thesis using I1 I2 True by auto
next
  case valid: False
  show ?thesis
  proof (cases "m (get r K_id)")
    case None
    then have Q': "mergeStep m r Q = Q @ [r]" using valid by (simp add: mergeStep_def)
    have e: "existingPlayerMap (Q @ [r]) = (existingPlayerMap Q)(get r K_id \<mapsto> length Q)"
      by (rule epm_snoc)
    have a: "\<forall>v i. m v = Some i \<longrightarrow> existingPlayerMap (Q @ [r]) v = Some i"
      using I1 None by (auto simp: e)
    have b: "settled (Q @ [r]) r"
      unfolding settled_def by (simp add: e mergeOne_self)
    have c: "settled (Q @ [r]) r'" if "r' \<in> R" "\<not> isInvalidId (get r' K_id)" for r'
    proof -
      from I2[OF that] obtain j where j: "existingPlayerMap Q (get r' K_id) = Some j"
        "mergeOne (Q ! j) r' = Q ! j" unfolding settled_def by blast
      have "j < length Q" using j(1) epm_Some by blast
      moreover have "get r' K_id \<noteq> get r K_id" using fresh[OF that valid] .
      ultimately show ?thesis unfolding settled_def using j by (simp add: e nth_append)
    qed
    have "\<forall>r'\<in>insert r R. \<not> isInvalidId (get r' K_id) \<longrightarrow> settled (Q @ [r]) r'"
    proof (intro ballI impI)
      fix r' assume "r' \<in> insert r R" and v: "\<not> isInvalidId (get r' K_id)"
      then have "r' = r \<or> r' \<in> R" by simp
      then show "settled (Q @ [r]) r'"
      proof
        assume "r' = r" then show ?thesis using b by simp
      next
        assume "r' \<in> R" then show ?thesis using v by (rule c)
      qed
    qed
    then show ?thesis unfolding Q' using a by (intro conjI)
  next
    case (Some i)
    have ei: "existingPlayerMap Q (get r K_id) = Some i" using I1 Some by blast
    then have i: "i < length Q" "get (Q ! i) K_id = get r K_id" using epm_Some by blast+
    have Q': "mergeStep m r Q = Q[i := mergeOne (Q ! i) r]"
      using valid Some by (simp add: mergeStep_def)
    have e: "existingPlayerMap (Q[i := mergeOne (Q ! i) r]) = existingPlayerMap Q"
      using i mergeOne_id[OF valid, of "Q ! i"] by (intro epm_update) simp_all
    have a: "\<forall>v k. m v = Some k \<longrightarrow> existingPlayerMap (Q[i := mergeOne (Q ! i) r]) v = Some k"
      using I1 by (simp add: e)
    have b: "settled (Q[i := mergeOne (Q ! i) r]) r"
      unfolding settled_def using ei i by (simp add: e mergeOne_idem)
    have c: "settled (Q[i := mergeOne (Q ! i) r]) r'" if "r' \<in> R" "\<not> isInvalidId (get r' K_id)" for r'
    proof -
      from I2[OF that] obtain j where j: "existingPlayerMap Q (get r' K_id) = Some j"
        "mergeOne (Q ! j) r' = Q ! j" unfolding settled_def by blast
      have "get (Q ! j) K_id = get r' K_id" using j(1) epm_Some by blast
      moreover have "get r' K_id \<noteq> get r K_id" using fresh[OF that valid] .
      ultimately have "j \<noteq> i" using i(2) by auto
      then show ?thesis unfolding settled_def using j by (simp add: e)
    qed
    have "\<forall>r'\<in>insert r R. \<not> isInvalidId (get r' K_id) \<longrightarrow>
            settled (Q[i := mergeOne (Q ! i) r]) r'"
    proof (intro ballI impI)
      fix r' assume "r' \<in> insert r R" and v: "\<not> isInvalidId (get r' K_id)"
      then have "r' = r \<or> r' \<in> R" by simp
      then show "settled (Q[i := mergeOne (Q ! i) r]) r'"
      proof
        assume "r' = r" then show ?thesis using b by simp
      next
        assume "r' \<in> R" then show ?thesis using v by (rule c)
      qed
    qed
    then show ?thesis unfolding Q' using a by (intro conjI)
  qed
qed

lemma settle_fold:
  assumes "\<And>v i. m v = Some i \<Longrightarrow> existingPlayerMap Q v = Some i"
    and "\<And>r'. r' \<in> R \<Longrightarrow> \<not> isInvalidId (get r' K_id) \<Longrightarrow> settled Q r'"
    and "distinct (map (\<lambda>r. get r K_id) (filter (\<lambda>r. \<not> isInvalidId (get r K_id)) s))"
    and "\<And>r r'. r \<in> set s \<Longrightarrow> r' \<in> R \<Longrightarrow> \<not> isInvalidId (get r' K_id)
            \<Longrightarrow> \<not> isInvalidId (get r K_id) \<Longrightarrow> get r' K_id \<noteq> get r K_id"
  shows "\<forall>r'\<in>R \<union> set s. \<not> isInvalidId (get r' K_id) \<longrightarrow> settled (fold (mergeStep m) s Q) r'"
  using assms
proof (induction s arbitrary: Q R)
  case Nil
  then show ?case by simp
next
  case (Cons a s)
  have fresh_a: "\<And>r'. r' \<in> R \<Longrightarrow> \<not> isInvalidId (get r' K_id) \<Longrightarrow> \<not> isInvalidId (get a K_id)
                  \<Longrightarrow> get r' K_id \<noteq> get a K_id"
    using Cons.prems(4)[of a] by simp
  from settle_step[of m Q R a, OF Cons.prems(1) Cons.prems(2) fresh_a]
  have s1: "\<And>v i. m v = Some i \<Longrightarrow> existingPlayerMap (mergeStep m a Q) v = Some i"
    and s2: "\<And>r'. r' \<in> insert a R \<Longrightarrow> \<not> isInvalidId (get r' K_id) \<Longrightarrow> settled (mergeStep m a Q) r'"
    by blast+
  have d: "distinct (map (\<lambda>r. get r K_id) (filter (\<lambda>r. \<not> isInvalidId (get r K_id)) s))"
    using Cons.prems(3) by (simp split: if_splits)
  have f: "get r' K_id \<noteq> get r K_id"
    if "r \<in> set s" "r' \<in> insert a R" "\<not> isInvalidId (get r' K_id)" "\<not> isInvalidId (get r K_id)" for r r'
  proof (cases "r' = a")
    case True
    then show ?thesis using Cons.prems(3) that by (auto split: if_splits)
  next
    case False
    then show ?thesis using Cons.prems(4)[of r r'] that by simp
  qed
  from Cons.IH[of "mergeStep m a Q" "insert a R", OF s1 s2 d f]
  show ?case by simp
qed

lemma fold_fixed: "(\<And>x. x \<in> set xs \<Longrightarrow> f x a = a) \<Longrightarrow> fold f xs a = a"
  by (induction xs) simp_all

lemma mergeStep_settled:
  assumes "isInvalidId (get r K_id) \<or> settled Q r"
  shows "mergeStep (existingPlayerMap Q) r Q = Q"
proof (cases "isInvalidId (get r K_id)")
  case True
  then show ?thesis by (simp add: mergeStep_def)
next
  case False
  then obtain j where "existingPlayerMap Q (get r K_id) = Some j" "mergeOne (Q ! j) r = Q ! j"
    using assms unfolding settled_def by blast
  then show ?thesis using False by (simp add: mergeStep_def)
qed

text \<open>
  C4. For a remote snapshot (no two records with a valid identifier share it) and any
  local collection, merging the snapshot a second time leaves the player collection as
  the first merge made it: no row is added and no field changes.
\<close>

theorem merge_idempotent:
  assumes "distinct (map (\<lambda>r. get r K_id) (filter (\<lambda>r. \<not> isInvalidId (get r K_id)) s))"
  shows "players (mergeSupabaseData now' s (mergeSupabaseData now s st))
         = players (mergeSupabaseData now s st)"
proof -
  let ?P = "mergePlayers s (players st)"
  have "\<forall>r'\<in>{} \<union> set s. \<not> isInvalidId (get r' K_id) \<longrightarrow>
          settled (fold (mergeStep (existingPlayerMap (players st))) s (players st)) r'"
    by (rule settle_fold[OF _ _ assms]) simp_all
  then have "\<And>r. r \<in> set s \<Longrightarrow> isInvalidId (get r K_id) \<or> settled ?P r"
    by (auto simp: mergePlayers_def)
  then have "\<And>r. r \<in> set s \<Longrightarrow> mergeStep (existingPlayerMap ?P) r ?P = ?P"
    by (rule mergeStep_settled)
  then have "fold (mergeStep (existingPlayerMap ?P)) s ?P = ?P" by (rule fold_fixed)
  then have "mergePlayers s ?P = ?P" by (simp add: mergePlayers_def)
  then show ?thesis by simp
qed

text \<open>The theorem at work: a snapshot of two records merged twice into a collection that
  holds one of the two players.\<close>

theorem merge_idempotent_witness:
  "players (mergeSupabaseData ex_now [ex_remote ex_uuid False [], ex_remote ex_uuid2 True ''Team B'']
      (mergeSupabaseData ex_now [ex_remote ex_uuid False [], ex_remote ex_uuid2 True ''Team B'']
         (ex_tracker [ex_local])))
   = players (mergeSupabaseData ex_now
         [ex_remote ex_uuid False [], ex_remote ex_uuid2 True ''Team B''] (ex_tracker [ex_local]))"
proof -
  have d: "distinct (map (\<lambda>r. get r K_id) (filter (\<lambda>r. \<not> isInvalidId (get r K_id))
             [ex_remote ex_uuid False [], ex_remote ex_uuid2 True ''Team B'']))"
    by (simp add: ex_remote_def get_def ex_uuid_def ex_uuid2_def)
  show ?thesis by (rule merge_idempotent[OF d])
qed

section \<open>Facts about the local operations\<close>


lemma findIndex_None: "findIndex P xs = None \<longleftrightarrow> (\<forall>x\<in>set xs. \<not> P x)"
  by (induction xs) auto





text \<open>The test is made by the form handler; \<^const>\<open>draftPlayer\<close> itself takes a blank owner.\<close>

lemma draftPlayer_blank_owner:
  "get (players (state_of (draftPlayer ex_now ex_uuid \<lparr>od_owner = Some ''  '', od_notes = None\<rparr>
      (ex_tracker [ex_remote ex_uuid False []]))) ! 0) K_fantasyOwner = JStr []"
  by (simp add: draftPlayer_def ex_tracker_def ex_remote_def get_def saveToStorage_def
      trim_def is_space_def)

section \<open>Facts about the real-time handlers\<close>

text \<open>
  The update handler on a row: nothing happens when no property of the converted row
  differs from the current record, and the record is replaced and saved otherwise. The
  subscription callback, however, raises on every event.
\<close>

lemma subscription_raises: "on_postgres_changes now pl st = Threw TypeError st"
  by (simp add: on_postgres_changes_def handleRealtimeUpdate_def convert_def payload_as_row_def)

lemma handleRealtimeUpdate_same:
  assumes "convert now updatedPlayer = Inr playerUpdate"
    and "findIndex (\<lambda>p. get p K_id = get playerUpdate K_id) (players st) = Some i"
    and "\<not> hasChanges (players st ! i) playerUpdate"
  shows "handleRealtimeUpdate now updatedPlayer st = Done st"
  using assms by (simp add: handleRealtimeUpdate_def)

lemma handleRealtimeUpdate_differs:
  assumes "convert now updatedPlayer = Inr playerUpdate"
    and "findIndex (\<lambda>p. get p K_id = get playerUpdate K_id) (players st) = Some i"
    and "hasChanges (players st ! i) playerUpdate"
  shows "handleRealtimeUpdate now updatedPlayer st =
         Done (saveToStorage now (st\<lparr>players := (players st)[i := players st ! i ++ playerUpdate]\<rparr>))"
  using assms by (simp add: handleRealtimeUpdate_def)

lemma hasChanges_iff:
  "hasChanges cur upd \<longleftrightarrow> (\<exists>k. upd k \<noteq> None \<and> get cur k \<noteq> get upd k)"
proof -
  have "set all_fields = UNIV"
  proof -
    have "k \<in> set all_fields" for k by (cases k) (simp_all add: all_fields_def)
    then show ?thesis by auto
  qed
  then show ?thesis by (auto simp: hasChanges_def keys_def list_ex_iff)
qed

lemma convert_ex_row: "convert now (ex_row i d owner) = Inr (ex_remote i d (or_empty owner))"
  by (simp add: convert_def ex_row_def ex_remote_def or_empty_def or_false_def or_else_def)

text \<open>
  C7, at an event the subscription delivers. The local player is drafted by Team A; the
  event is an UPDATE whose new row says the player is not drafted, so the converted row
  differs from the local record. The claim calls for the record to be replaced by the
  spread of the old properties overwritten by the new ones and for the collection to be
  saved: that is what the dispatcher on \<^verbatim>\<open>eventType\<close> would do. The callback reaches the
  row handler instead, which raises a TypeError on the event object and leaves the tracker
  as it was.
\<close>

theorem update_event_raises:
  "convert ex_now (new ex_update_event) = Inr (ex_remote ex_uuid False []) \<and>
   findIndex (\<lambda>p. get p K_id = get (ex_remote ex_uuid False []) K_id)
      (players (ex_tracker [ex_local])) = Some 0 \<and>
   hasChanges (players (ex_tracker [ex_local]) ! 0) (ex_remote ex_uuid False []) \<and>
   on_postgres_changes ex_now ex_update_event (ex_tracker [ex_local])
     = Threw TypeError (ex_tracker [ex_local]) \<and>
   handleRealtimeUpdate_dispatcher ex_now ex_update_event (ex_tracker [ex_local])
     = Done (saveToStorage ex_now
         ((ex_tracker [ex_local])\<lparr>players := [ex_local ++ ex_remote ex_uuid False []]\<rparr>))"
proof -
  have c: "convert ex_now (new ex_update_event) = Inr (ex_remote ex_uuid False [])"
    by (simp add: ex_update_event_def convert_ex_row or_empty_def)
  have f: "findIndex (\<lambda>p. get p K_id = get (ex_remote ex_uuid False []) K_id)
      (players (ex_tracker [ex_local])) = Some 0"
    by (simp add: ex_tracker_def ex_local_def ex_remote_def get_def)
  have "(ex_remote ex_uuid False []) K_drafted \<noteq> None \<and>
        get ex_local K_drafted \<noteq> get (ex_remote ex_uuid False []) K_drafted"
    by (simp add: ex_local_def ex_remote_def get_def)
  then have h: "hasChanges (players (ex_tracker [ex_local]) ! 0) (ex_remote ex_uuid False [])"
    unfolding hasChanges_iff by (simp add: ex_tracker_def) blast
  have d: "handleRealtimeUpdate_dispatcher ex_now ex_update_event (ex_tracker [ex_local])
     = Done (saveToStorage ex_now
         ((ex_tracker [ex_local])\<lparr>players := [ex_local ++ ex_remote ex_uuid False []]\<rparr>))"
    using handleRealtimeUpdate_differs[OF c f h]
    by (simp add: handleRealtimeUpdate_dispatcher_def ex_update_event_def ex_tracker_def)
  show ?thesis using c f h d subscription_raises by simp
qed

section \<open>The star of a player and the backend\<close>

lemma convert_no_star: "convert now r = Inr p \<Longrightarrow> p K_starred = None"
  by (auto simp: convert_def split: option.splits)

lemma convert_all_no_star: "convert_all now rs = Inr ps \<Longrightarrow> \<forall>p\<in>set ps. p K_starred = None"
proof (induction rs arbitrary: ps)
  case Nil
  then show ?case by simp
next
  case (Cons r rs)
  then show ?case by (auto split: sum.splits dest: convert_no_star)
qed

lemma mergeOne_starred: "r K_starred = None \<Longrightarrow> mergeOne p r K_starred = p K_starred"
  by (cases "restoring p r") (simp_all add: mergeOne_restoring mergeOne_plain map_add_def)

lemma mergeStep_starred:
  assumes "r K_starred = None" "i < length Q"
  shows "i < length (mergeStep m r Q) \<and> (mergeStep m r Q ! i) K_starred = (Q ! i) K_starred"
proof (cases "isInvalidId (get r K_id)")
  case True
  then show ?thesis using assms by (simp add: mergeStep_def)
next
  case False
  show ?thesis
  proof (cases "m (get r K_id)")
    case None
    then show ?thesis using False assms by (simp add: mergeStep_def nth_append)
  next
    case (Some j)
    then show ?thesis
      using False assms mergeOne_starred[of r "Q ! i"]
      by (cases "j = i") (simp_all add: mergeStep_def)
  qed
qed

lemma fold_mergeStep_starred:
  assumes "\<forall>r\<in>set s. r K_starred = None" "i < length Q"
  shows "i < length (fold (mergeStep m) s Q) \<and>
         (fold (mergeStep m) s Q ! i) K_starred = (Q ! i) K_starred"
  using assms
proof (induction s arbitrary: Q)
  case Nil
  then show ?case by simp
next
  case (Cons a s)
  have a: "a K_starred = None" using Cons.prems(1) by simp
  have rest: "\<forall>r\<in>set s. r K_starred = None" using Cons.prems(1) by simp
  from mergeStep_starred[of a i Q m, OF a Cons.prems(2)]
  have st: "i < length (mergeStep m a Q)" "(mergeStep m a Q ! i) K_starred = (Q ! i) K_starred"
    by simp_all
  from Cons.IH[OF rest st(1)] st(2) show ?case by simp
qed

lemma load_starred:
  assumes "i < length (players st)"
  shows "i < length (players (loadFromSupabase now resp st)) \<and>
         (players (loadFromSupabase now resp st) ! i) K_starred = (players st ! i) K_starred"
proof -
  have m: "i < length (mergePlayers ps (players st)) \<and>
           (mergePlayers ps (players st) ! i) K_starred = (players st ! i) K_starred"
    if "convert_all now data = Inr ps" for data ps
    unfolding mergePlayers_def
    using fold_mergeStep_starred[OF convert_all_no_star[OF that] assms] .
  show ?thesis
    using assms m
    by (auto simp: loadFromSupabase_def setSyncStatus_def Let_def
        split: response.splits option.splits sum.splits)
qed

lemma update_starred:
  assumes "i < length (players st)"
  shows "i < length (players (state_of (handleRealtimeUpdate now r st))) \<and>
         (players (state_of (handleRealtimeUpdate now r st)) ! i) K_starred
           = (players st ! i) K_starred"
proof (cases "convert now r")
  case (Inl e)
  then show ?thesis using assms by (simp add: handleRealtimeUpdate_def)
next
  case (Inr u)
  then have u: "u K_starred = None" by (rule convert_no_star)
  show ?thesis
  proof (cases "findIndex (\<lambda>p. get p K_id = get u K_id) (players st)")
    case None
    then show ?thesis using Inr assms by (simp add: handleRealtimeUpdate_def)
  next
    case (Some j)
    then show ?thesis
      using Inr assms u
      by (cases "j = i")
         (simp_all add: handleRealtimeUpdate_def saveToStorage_def map_add_def Let_def)
  qed
qed

lemma apply_update_starred:
  assumes "i < length (players st)"
  shows "i < length (players (apply_update u st)) \<and>
         (players (apply_update u st) ! i) K_starred = (players st ! i) K_starred"
proof (cases u)
  case (Snapshot now resp)
  then show ?thesis using load_starred[OF assms] by simp
next
  case (Row_update now r)
  then show ?thesis using update_starred[OF assms] by simp
next
  case (Change_event now pl)
  then show ?thesis using assms by (simp add: subscription_raises)
qed

text \<open>
  C10. Whatever sequence of snapshots, updated rows and change events comes from the
  backend, a player of the collection keeps its place and its \<^verbatim>\<open>starred\<close> property: the
  converted remote record has no such property, and neither \<^verbatim>\<open>Object.assign\<close> in the merge
  nor the spread in the update handler touches a property the remote record lacks.
\<close>

theorem starred_survives:
  assumes "i < length (players st)"
  shows "i < length (players (fold apply_update us st)) \<and>
         (players (fold apply_update us st) ! i) K_starred = (players st ! i) K_starred"
  using assms
proof (induction us arbitrary: st)
  case Nil
  then show ?case by simp
next
  case (Cons u us)
  from apply_update_starred[OF Cons.prems, of u]
  have st: "i < length (players (apply_update u st))"
    "(players (apply_update u st) ! i) K_starred = (players st ! i) K_starred"
    by simp_all
  from Cons.IH[OF st(1)] st(2) show ?case by simp
qed

text \<open>The theorem at work: the starred local player after a snapshot, an updated row and a
  change event that all say he is not drafted.\<close>

theorem starred_survives_witness:
  "0 < length (players (ex_tracker [ex_local])) \<and>
   (players (fold apply_update
      [Snapshot ex_now (Reply (Some [ex_row ex_uuid False None])),
       Row_update ex_now (ex_row ex_uuid False None),
       Change_event ex_now ex_update_event]
      (ex_tracker [ex_local])) ! 0) K_starred = Some (JBool True)"
proof -
  have h: "0 < length (players (ex_tracker [ex_local]))" by (simp add: ex_tracker_def)
  have s: "(players (ex_tracker [ex_local]) ! 0) K_starred = Some (JBool True)"
    by (simp add: ex_tracker_def ex_local_def)
  from starred_survives[OF h, of "[Snapshot ex_now (Reply (Some [ex_row ex_uuid False None])),
       Row_update ex_now (ex_row ex_uuid False None),
       Change_event ex_now ex_update_event]"]
  show ?thesis using h by (simp only: s)
qed

section \<open>The draft shape of the players\<close>











section \<open>Records sent to the backend\<close>











section \<open>Failures of the backend\<close>



text \<open>
  A comparison whose first player has no string for a name raises, and when the sort raises
  \<^verbatim>\<open>initializeRankings\<close> is left before any call and before any status.
\<close>

lemma compareNames_raises:
  "(\<forall>s. get a K_name \<noteq> JStr s) \<Longrightarrow> compareNames localeCompare a b = Inl TypeError"
  by (cases "get a K_name") (simp_all add: compareNames_def)

lemma initialize_raises_before_call:
  assumes "supabase st" and "playersToRank listType (players st) = Inr picked"
    and "sortBy (compareNames localeCompare) picked = Inl e"
  shows "initializeRankings sortBy localeCompare listType reply reloaded st = (Threw e st, [])"
  using assms by (simp add: initializeRankings_def)







section \<open>Reordering the rankings\<close>










lemma filterE_exact: "filterE f xs = Inr ys \<Longrightarrow> ys = filter (\<lambda>y. f y = Inr True) xs"
proof (induction xs arbitrary: ys)
  case Nil
  then show ?case by simp
next
  case (Cons x xs)
  from Cons.prems obtain b zs where b: "f x = Inr b" and zs: "filterE f xs = Inr zs"
    and ys: "ys = (if b then x # zs else zs)"
    by (auto split: sum.splits)
  from Cons.IH[OF zs] b ys show ?case by simp
qed

lemma getFilteredRankings_filter:
  assumes "getFilteredRankings lower st = Inr F"
  shows "\<exists>vis. F = filter vis (rankings st)"
proof (cases "rankingsSearchTerm st \<noteq> []")
  case True
  then obtain G where G: "filterE (matchesSearch lower (lower (rankingsSearchTerm st)) (players st))
                   (rankings st) = Inr G"
    and F: "F = (if hideDraftedInRankings st then filter (notDrafted (players st)) G else G)"
    using assms by (auto simp: getFilteredRankings_def split: sum.splits)
  from filterE_exact[OF G] obtain P where "G = filter P (rankings st)" by blast
  then show ?thesis using F by (cases "hideDraftedInRankings st") auto
next
  case False
  then have "F = (if hideDraftedInRankings st then filter (notDrafted (players st)) (rankings st)
                  else rankings st)"
    using assms by (simp add: getFilteredRankings_def)
  then show ?thesis
    by (cases "hideDraftedInRankings st") (auto intro: exI[of _ "\<lambda>r. True"])
qed





end
